theory Spec2Isabelle
  imports Main
begin

section \<open>JavaScript values\<close>

text \<open>
  The selectors of \<^verbatim>\<open>src/index.js\<close> pass JavaScript values around and compare
  them by reference. A value of reference type carries its identity as a number (its
  allocation tag); the library never mutates an object it is given, so an identity comes
  with one content and \<^verbatim>\<open>===\<close> is equality of the whole value. Numbers are integers:
  no claim depends on fractions, NaN or the sign of zero.

  \<^item> \<open>Func r v\<close> is a function object; called as a method without the library
    looking at its arguments, it returns \<open>v\<close>.
  \<^item> \<open>Plain r fs\<close> is an object with the fields \<open>fs\<close> (own or inherited from its
    class); an object with a value of its own, such as a date, is one with a
    \<^verbatim>\<open>valueOf\<close> method, and a value object is one with an \<^verbatim>\<open>equals\<close> method.
  \<^item> \<open>Array r xs\<close> is a native array.
  \<^item> \<open>IMap r kvs\<close> is a persistent associative collection (string keys, as built
    from a plain object), \<open>IList r xs\<close> a persistent sequential collection.
\<close>

datatype val =
    Undefined
  | Null
  | Bool bool
  | Num int
  | Str string
  | Func nat val
  | Plain nat "(string \<times> val) list"
  | Array nat "val list"
  | IMap nat "(string \<times> val) list"
  | IList nat "val list"

text \<open>A thrown failure: the engine's TypeError, or a value thrown by caller code.\<close>

datatype exn = TypeError | Thrown val

text \<open>\<^verbatim>\<open>!v\<close> is \<open>\<not> truthy v\<close>.\<close>

fun truthy :: "val \<Rightarrow> bool" where
  "truthy Undefined = False"
| "truthy Null = False"
| "truthy (Bool b) = b"
| "truthy (Num n) = (n \<noteq> 0)"
| "truthy (Str s) = (s \<noteq> [])"
| "truthy _ = True"

fun typeof :: "val \<Rightarrow> string" where
  "typeof Undefined = ''undefined''"
| "typeof Null = ''object''"
| "typeof (Bool _) = ''boolean''"
| "typeof (Num _) = ''number''"
| "typeof (Str _) = ''string''"
| "typeof (Func _ _) = ''function''"
| "typeof _ = ''object''"

text \<open>\<^verbatim>\<open>a === b\<close>.\<close>

definition strict_equal :: "val \<Rightarrow> val \<Rightarrow> bool" where
  "strict_equal a b = (a = b)"

text \<open>
  The method names that are asked for, by this library or by the deep-equality predicate:
  every value but null and undefined inherits \<^verbatim>\<open>valueOf\<close> (which returns the value
  itself unless the object has its own), and a persistent collection answers to
  \<^verbatim>\<open>get\<close>, \<^verbatim>\<open>has\<close>, \<^verbatim>\<open>toJS\<close> and \<^verbatim>\<open>equals\<close>.
\<close>

definition object_methods :: "string list" where
  "object_methods = [''valueOf'']"

definition collection_methods :: "string list" where
  "collection_methods = [''get'', ''has'', ''toJS'', ''equals'']"

text \<open>\<^verbatim>\<open>name in item\<close>, for an item of type object or function.\<close>

fun has_property :: "string \<Rightarrow> val \<Rightarrow> bool" where
  "has_property name (Plain _ fs) = (map_of fs name \<noteq> None \<or> name \<in> set object_methods)"
| "has_property name (IMap _ _) =
     (name \<in> set collection_methods \<or> name \<in> set object_methods)"
| "has_property name (IList _ _) =
     (name \<in> set collection_methods \<or> name \<in> set object_methods)"
| "has_property name (Array _ _) = (name \<in> set object_methods)"
| "has_property name (Func _ _) = (name \<in> set object_methods)"
| "has_property name _ = False"

text \<open>\<^verbatim>\<open>typeof item[name] === 'function'\<close>, for an item that is neither null nor undefined.\<close>

fun method_callable :: "val \<Rightarrow> string \<Rightarrow> bool" where
  "method_callable (Plain _ fs) name =
     (case map_of fs name of
        Some (Func _ _) \<Rightarrow> True
      | Some _ \<Rightarrow> False
      | None \<Rightarrow> name \<in> set object_methods)"
| "method_callable (IMap _ _) name =
     (name \<in> set collection_methods \<or> name \<in> set object_methods)"
| "method_callable (IList _ _) name =
     (name \<in> set collection_methods \<or> name \<in> set object_methods)"
| "method_callable Undefined name = False"
| "method_callable Null name = False"
| "method_callable _ name = (name \<in> set object_methods)"

text \<open>\<^verbatim>\<open>item.valueOf()\<close>, for an item whose \<^verbatim>\<open>valueOf\<close> is callable.\<close>

fun value_of :: "val \<Rightarrow> val" where
  "value_of (Plain r fs) =
     (case map_of fs ''valueOf'' of Some (Func _ v) \<Rightarrow> v | _ \<Rightarrow> Plain r fs)"
| "value_of v = v"

section \<open>The persistent-collection library\<close>

text \<open>
  Modelled from the spec: the persistent-collection library (Immutable) is an external
  collaborator whose code is not part of the repository. The spec gives it a deep-equality
  predicate over two arbitrary values (two independently constructed collections with
  equal contents are equal although they are not the same reference), and per collection a
  \<^verbatim>\<open>get(key, default)\<close> operation (absent key: the default), a \<^verbatim>\<open>has(key)\<close>
  operation and a deep conversion to plain native structures (a fresh structure on every
  call).

  The predicate is the library's \<^verbatim>\<open>is\<close>, over arbitrary values: identical values
  are equal; a falsy value is equal to itself only; otherwise, when both values have a
  callable \<^verbatim>\<open>valueOf\<close>, what \<^verbatim>\<open>valueOf()\<close> returns is compared in their place
  (so two dates of the same time are equal, and so are a number and an object whose
  value it is); at last two values that both have a callable \<^verbatim>\<open>equals\<close> are equal
  when the first one's \<^verbatim>\<open>equals\<close> says so, which for a persistent collection is deep
  equality with a collection of the same kind.
\<close>

function (sequential) immutable_is :: "val \<Rightarrow> val \<Rightarrow> bool"
and call_equals :: "val \<Rightarrow> val \<Rightarrow> bool"
and is_list :: "val list \<Rightarrow> val list \<Rightarrow> bool"
and is_entries :: "(string \<times> val) list \<Rightarrow> (string \<times> val) list \<Rightarrow> bool"
where
  "immutable_is a b =
     (if a = b then True
      else if \<not> truthy a \<or> \<not> truthy b then False
      else if method_callable a ''valueOf'' \<and> method_callable b ''valueOf''
      then (if value_of a = value_of b then True
            else if \<not> truthy (value_of a) \<or> \<not> truthy (value_of b) then False
            else if method_callable (value_of a) ''equals'' \<and>
                    method_callable (value_of b) ''equals''
            then call_equals (value_of a) (value_of b) else False)
      else if method_callable a ''equals'' \<and> method_callable b ''equals''
      then call_equals a b else False)"
| "call_equals (IList r xs) b = (case b of IList r' ys \<Rightarrow> is_list xs ys | _ \<Rightarrow> False)"
| "call_equals (IMap r kvs) b =
     (case b of IMap r' kvs' \<Rightarrow> length kvs = length kvs' \<and> is_entries kvs kvs' | _ \<Rightarrow> False)"
| "call_equals (Plain r fs) b =
     (case map_of fs ''equals'' of Some (Func _ v) \<Rightarrow> truthy v | _ \<Rightarrow> False)"
| "call_equals _ b = False"
| "is_list [] ys = (ys = [])"
| "is_list (x # xs) [] = False"
| "is_list (x # xs) (y # ys) = (immutable_is x y \<and> is_list xs ys)"
| "is_entries a [] = True"
| "is_entries a ((k, v) # b) =
     (case map_of a k of None \<Rightarrow> False | Some v' \<Rightarrow> immutable_is v' v \<and> is_entries a b)"
  by pat_completeness auto
termination
proof -
  have field: "size x < Suc (size_list (size_prod (\<lambda>_. 0) size) fs)"
    if "map_of fs k = Some x" for fs :: "(string \<times> val) list" and k x
    using that by (induction fs) (auto split: if_splits)
  have vo: "size (value_of b) \<le> size b" for b
  proof (cases b)
    case (Plain r fs)
    show ?thesis
    proof (cases "map_of fs ''valueOf''")
      case None
      then show ?thesis by (simp add: Plain)
    next
      case (Some x)
      from field[OF Some] show ?thesis by (cases x) (auto simp: Plain Some)
    qed
  qed simp_all
  show ?thesis
    apply (relation "measure (\<lambda>x. case x of
        Inl (Inl (a, b)) \<Rightarrow> 2 * size b + 1
      | Inl (Inr (a, b)) \<Rightarrow> 2 * size b
      | Inr (Inl (xs, ys)) \<Rightarrow> 2 * size_list size ys
      | Inr (Inr (a, b)) \<Rightarrow> 2 * size_list (size_prod (\<lambda>_. 0) size) b)")
    using vo
         apply (auto simp: less_Suc_eq_le)
    done
qed

declare immutable_is.simps [simp del]

text \<open>
  Modelled from the spec: the deep conversion of a persistent collection to plain native
  structures (the collection library's \<^verbatim>\<open>toJS\<close>, not part of the repository). It
  threads the allocation counter: every converted collection is a newly allocated native
  structure; a value that is not a persistent collection stays as it is.
\<close>

fun toJS :: "val \<Rightarrow> nat \<Rightarrow> val \<times> nat"
and toJS_list :: "val list \<Rightarrow> nat \<Rightarrow> val list \<times> nat"
and toJS_entries :: "(string \<times> val) list \<Rightarrow> nat \<Rightarrow> (string \<times> val) list \<times> nat"
where
  "toJS (IList r xs) n = (case toJS_list xs n of (ys, n') \<Rightarrow> (Array n' ys, Suc n'))"
| "toJS (IMap r kvs) n = (case toJS_entries kvs n of (es, n') \<Rightarrow> (Plain n' es, Suc n'))"
| "toJS v n = (v, n)"
| "toJS_list [] n = ([], n)"
| "toJS_list (x # xs) n =
     (case toJS x n of (y, n') \<Rightarrow> (case toJS_list xs n' of (ys, n'') \<Rightarrow> (y # ys, n'')))"
| "toJS_entries [] n = ([], n)"
| "toJS_entries ((k, v) # kvs) n =
     (case toJS v n of (y, n') \<Rightarrow>
        (case toJS_entries kvs n' of (es, n'') \<Rightarrow> ((k, y) # es, n'')))"

text \<open>
  Modelled from the spec: \<^verbatim>\<open>coll.get(key, notSetValue)\<close> and \<^verbatim>\<open>coll.has(key)\<close>
  of a persistent collection (the collection library's operations, not part of the
  repository): the value at the key, or \<^verbatim>\<open>notSetValue\<close> when the key is absent; an
  associative collection is addressed by its keys, a sequential one by its positions.
\<close>

fun immutable_get :: "val \<Rightarrow> val \<Rightarrow> val \<Rightarrow> val" where
  "immutable_get (IMap _ kvs) (Str k) notSetValue =
     (case map_of kvs k of Some v \<Rightarrow> v | None \<Rightarrow> notSetValue)"
| "immutable_get (IList _ xs) (Num i) notSetValue =
     (if 0 \<le> i \<and> i < int (length xs) then xs ! nat i else notSetValue)"
| "immutable_get _ _ notSetValue = notSetValue"

fun immutable_has :: "val \<Rightarrow> val \<Rightarrow> bool" where
  "immutable_has (IMap _ kvs) (Str k) = (map_of kvs k \<noteq> None)"
| "immutable_has (IList _ xs) (Num i) = (0 \<le> i \<and> i < int (length xs))"
| "immutable_has _ _ = False"

section \<open>Method calls\<close>

text \<open>
  \<^verbatim>\<open>item.toJS()\<close>, \<^verbatim>\<open>obj.get(key, defaultValue)\<close> and \<^verbatim>\<open>obj.has(key)\<close> as the
  engine runs them: a call of something that is not a function, or a property read on
  null or undefined, throws a TypeError.
\<close>

fun call_toJS :: "val \<Rightarrow> nat \<Rightarrow> (exn + val) \<times> nat" where
  "call_toJS (IMap r kvs) w = (case toJS (IMap r kvs) w of (v, w') \<Rightarrow> (Inr v, w'))"
| "call_toJS (IList r xs) w = (case toJS (IList r xs) w of (v, w') \<Rightarrow> (Inr v, w'))"
| "call_toJS (Plain r fs) w =
     (case map_of fs ''toJS'' of Some (Func _ v) \<Rightarrow> (Inr v, w) | _ \<Rightarrow> (Inl TypeError, w))"
| "call_toJS _ w = (Inl TypeError, w)"

fun call_get :: "val \<Rightarrow> val \<Rightarrow> val \<Rightarrow> exn + val" where
  "call_get (IMap r kvs) key defaultValue = Inr (immutable_get (IMap r kvs) key defaultValue)"
| "call_get (IList r xs) key defaultValue = Inr (immutable_get (IList r xs) key defaultValue)"
| "call_get (Plain r fs) key defaultValue =
     (case map_of fs ''get'' of Some (Func _ v) \<Rightarrow> Inr v | _ \<Rightarrow> Inl TypeError)"
| "call_get _ key defaultValue = Inl TypeError"

fun call_has :: "val \<Rightarrow> val \<Rightarrow> exn + val" where
  "call_has (IMap r kvs) key = Inr (Bool (immutable_has (IMap r kvs) key))"
| "call_has (IList r xs) key = Inr (Bool (immutable_has (IList r xs) key))"
| "call_has (Plain r fs) key =
     (case map_of fs ''has'' of Some (Func _ v) \<Rightarrow> Inr v | _ \<Rightarrow> Inl TypeError)"
| "call_has _ key = Inl TypeError"

section \<open>The memoized-selector library\<close>

text \<open>
  A selector is called with the application state. It may own memo cells (its private
  state \<open>'m\<close>) and may allocate (the counter); it returns a value or throws.
\<close>

type_synonym 'm selector = "val \<Rightarrow> 'm \<Rightarrow> nat \<Rightarrow> (exn + val) \<times> 'm \<times> nat"

text \<open>A caller-supplied selector: a pure function of the state, which may throw.\<close>

definition pure_selector :: "(val \<Rightarrow> exn + val) \<Rightarrow> unit selector" where
  "pure_selector f = (\<lambda>state u w. (f state, u, w))"

text \<open>A combiner gets the input selectors' results, in order.\<close>

type_synonym combiner = "val list \<Rightarrow> nat \<Rightarrow> (exn + val) \<times> nat"

text \<open>The i-th positional argument of a call; a missing argument is undefined.\<close>

definition arg :: "val list \<Rightarrow> nat \<Rightarrow> val" where
  "arg args i = (if i < length args then args ! i else Undefined)"

text \<open>
  Modelled from the spec: the memoized-selector library (reselect) is an external
  collaborator whose code is not part of the repository. The spec gives a memoized
  selector the memo state \<^verbatim>\<open>{lastInputs, lastResult}\<close>, a cache of exactly one prior
  call: the combiner is invoked again only when the input selectors' results differ from
  those of the previous call by the configured equality predicate (or on the first
  call), and otherwise the previously computed result is returned unchanged. A failure
  of an input selector or of the combiner leaves through the composed selector.
\<close>

record memo =
  lastArgs :: "val list option"
  lastResult :: val

definition memo0 :: memo where
  "memo0 = \<lparr>lastArgs = None, lastResult = Null\<rparr>"

definition areArgumentsShallowlyEqual ::
  "(val \<Rightarrow> val \<Rightarrow> bool) \<Rightarrow> val list option \<Rightarrow> val list \<Rightarrow> bool" where
  "areArgumentsShallowlyEqual equalityCheck prev nxt =
     (case prev of None \<Rightarrow> False
      | Some p \<Rightarrow> length p = length nxt \<and> list_all2 equalityCheck p nxt)"

definition defaultMemoize ::
  "combiner \<Rightarrow> (val \<Rightarrow> val \<Rightarrow> bool) \<Rightarrow> val list \<Rightarrow> memo \<Rightarrow> nat \<Rightarrow> (exn + val) \<times> memo \<times> nat" where
  "defaultMemoize func equalityCheck args m w =
     (if areArgumentsShallowlyEqual equalityCheck (lastArgs m) args
      then (Inr (lastResult m), m\<lparr>lastArgs := Some args\<rparr>, w)
      else (case func args w of
              (Inl e, w') \<Rightarrow> (Inl e, m, w')
            | (Inr r, w') \<Rightarrow> (Inr r, \<lparr>lastArgs = Some args, lastResult = r\<rparr>, w')))"

text \<open>
  Modelled from the spec: the selector factory of the memoized-selector library
  (\<^verbatim>\<open>createSelectorCreator\<close> with the library's one-cell memoizer, not part of the
  repository). The input selectors run in order, each on its own private state (the
  list of private states has one state for each input selector); the first failure ends
  the run; their results go to the memoized combiner.
\<close>

fun run_dependencies ::
  "'m selector list \<Rightarrow> val \<Rightarrow> 'm list \<Rightarrow> nat \<Rightarrow> (exn + val list) \<times> 'm list \<times> nat" where
  "run_dependencies (d # ds) state (m # ms) w =
     (case d state m w of
        (Inl e, m', w') \<Rightarrow> (Inl e, m' # ms, w')
      | (Inr v, m', w') \<Rightarrow>
          (case run_dependencies ds state ms w' of
             (Inl e, ms', w'') \<Rightarrow> (Inl e, m' # ms', w'')
           | (Inr vs, ms', w'') \<Rightarrow> (Inr (v # vs), m' # ms', w'')))"
| "run_dependencies _ state ms w = (Inr [], ms, w)"

definition createSelectorCreator ::
  "(val \<Rightarrow> val \<Rightarrow> bool) \<Rightarrow> 'm selector list \<Rightarrow> combiner \<Rightarrow> ('m list \<times> memo) selector" where
  "createSelectorCreator equalityCheck dependencies resultFunc = (\<lambda>state (ms, m) w.
     case run_dependencies dependencies state ms w of
       (Inl e, ms', w') \<Rightarrow> (Inl e, (ms', m), w')
     | (Inr params, ms', w') \<Rightarrow>
         (case defaultMemoize resultFunc equalityCheck params m w' of
            (r, m', w'') \<Rightarrow> (r, (ms', m'), w'')))"

definition createSelector :: "'m selector list \<Rightarrow> combiner \<Rightarrow> ('m list \<times> memo) selector" where
  "createSelector = createSelectorCreator strict_equal"


section \<open>The library: \<^verbatim>\<open>src/index.js\<close>\<close>

definition createImmutableComparingSelector ::
  "'m selector list \<Rightarrow> combiner \<Rightarrow> ('m list \<times> memo) selector" where
  "createImmutableComparingSelector = createSelectorCreator immutable_is"

definition selectorToJS :: "'m selector \<Rightarrow> ('m list \<times> memo) selector" where
  "selectorToJS selector = createImmutableComparingSelector [selector]
     (\<lambda>args w. let raw = arg args 0 in
        if truthy raw then call_toJS raw w else (Inr Null, w))"

definition ensureJSSelector :: "'m selector \<Rightarrow> ('m list \<times> memo) selector" where
  "ensureJSSelector selector = createImmutableComparingSelector [selector]
     (\<lambda>args w. let item = (if arg args 0 = Undefined then Null else arg args 0) in
        if \<not> truthy item \<or> typeof item \<noteq> ''object'' then (Inr item, w)
        else if has_property ''toJS'' item \<and> method_callable item ''toJS''
        then call_toJS item w
        else (Inr item, w))"


text \<open>
  The \<^verbatim>\<open>key\<close> parameter of the get and has builders: a callable is a selector of the
  key, anything else is the key itself.
\<close>

datatype 'm key_param = KeySelector "'m selector" | KeyLiteral val

definition createGetSelector ::
  "'m selector \<Rightarrow> 'm key_param \<Rightarrow> val \<Rightarrow> ('m list \<times> memo) selector" where
  "createGetSelector selector key defaultValue =
     (case key of
        KeySelector keySelector \<Rightarrow>
          createSelector [selector, keySelector]
            (\<lambda>args w. (call_get (arg args 0) (arg args 1) defaultValue, w))
      | KeyLiteral k \<Rightarrow>
          createSelector [selector]
            (\<lambda>args w. (call_get (arg args 0) k defaultValue, w)))"

definition invertSelector :: "'m selector \<Rightarrow> ('m list \<times> memo) selector" where
  "invertSelector selector = createSelector [selector]
     (\<lambda>args w. (Inr (Bool (\<not> truthy (arg args 0))), w))"

definition createHasSelector ::
  "'m selector \<Rightarrow> 'm key_param \<Rightarrow> ('m list \<times> memo) selector" where
  "createHasSelector selector key =
     (case key of
        KeySelector keySelector \<Rightarrow>
          createSelector [selector, keySelector]
            (\<lambda>args w. (call_has (arg args 0) (arg args 1), w))
      | KeyLiteral k \<Rightarrow>
          createSelector [selector]
            (\<lambda>args w. (call_has (arg args 0) k, w)))"

section \<open>Call histories\<close>

text \<open>
  A selector is created once and called many times. \<open>after_calls sel states (m, w)\<close>
  is the private state and the allocation counter after the selector has been called on
  each of \<open>states\<close> in turn, whatever each call returned or threw.
\<close>

fun after_calls :: "'m selector \<Rightarrow> val list \<Rightarrow> 'm \<times> nat \<Rightarrow> 'm \<times> nat" where
  "after_calls sel [] mw = mw"
| "after_calls sel (s # ss) (m, w) =
     (case sel s m w of (r, m', w') \<Rightarrow> after_calls sel ss (m', w'))"

text \<open>The outcome of one call, from a private state and a counter.\<close>

definition outcome :: "'m selector \<Rightarrow> val \<Rightarrow> 'm \<times> nat \<Rightarrow> exn + val" where
  "outcome sel s mw = fst (sel s (fst mw) (snd mw))"

section \<open>Notions used to state and prove the properties\<close>

text \<open>
  A destructuring selector \<^verbatim>\<open>({name}) => name\<close>, as the repository's tests write
  them: the field of the state, undefined when the state has none; destructuring null or
  undefined throws.
\<close>

definition destructure :: "string \<Rightarrow> val \<Rightarrow> exn + val" where
  "destructure name state =
     (case state of
        Undefined \<Rightarrow> Inl TypeError
      | Null \<Rightarrow> Inl TypeError
      | Plain _ fs \<Rightarrow> Inr (case map_of fs name of Some v \<Rightarrow> v | None \<Rightarrow> Undefined)
      | _ \<Rightarrow> Inr Undefined)"

fun is_collection :: "val \<Rightarrow> bool" where
  "is_collection (IMap _ _) = True"
| "is_collection (IList _ _) = True"
| "is_collection _ = False"

text \<open>
  The entry of a container at a key, in the spec's words: an associative container is
  addressed by its keys, a sequential one by the positions \<open>0 .. size - 1\<close>; any other
  key is absent.
\<close>

definition value_at :: "val \<Rightarrow> val \<Rightarrow> val option" where
  "value_at container key =
     (case (container, key) of
        (IMap _ kvs, Str k) \<Rightarrow> map_of kvs k
      | (IList _ xs, Num i) \<Rightarrow> (if 0 \<le> i \<and> i < int (length xs) then Some (xs ! nat i) else None)
      | _ \<Rightarrow> None)"

text \<open>
  The memo cell of a selector whose combiner \<open>g\<close> neither allocates nor depends on
  anything but its arguments is coherent when the cached result is the combiner's
  result on the cached arguments.
\<close>

definition memo_ok :: "(val list \<Rightarrow> exn + val) \<Rightarrow> memo \<Rightarrow> bool" where
  "memo_ok g m = (case lastArgs m of None \<Rightarrow> True | Some a \<Rightarrow> g a = Inr (lastResult m))"

text \<open>
  A selector implements the function \<open>F\<close> of the state under the invariant \<open>I\<close> of
  its private state: from a state satisfying \<open>I\<close> it returns or throws what \<open>F\<close>
  says, keeps \<open>I\<close> and allocates nothing.
\<close>

definition implements :: "'m selector \<Rightarrow> ('m \<Rightarrow> bool) \<Rightarrow> (val \<Rightarrow> exn + val) \<Rightarrow> bool" where
  "implements sel I F =
     (\<forall>s m w. I m \<longrightarrow> (case sel s m w of (r, m', w') \<Rightarrow> r = F s \<and> I m' \<and> w' = w))"

fun eval_all :: "(val \<Rightarrow> exn + val) list \<Rightarrow> val \<Rightarrow> exn + val list" where
  "eval_all [] s = Inr []"
| "eval_all (F # Fs) s =
     (case F s of Inl e \<Rightarrow> Inl e
      | Inr v \<Rightarrow> (case eval_all Fs s of Inl e \<Rightarrow> Inl e | Inr vs \<Rightarrow> Inr (v # vs)))"

definition then_combine ::
  "(val list \<Rightarrow> exn + val) \<Rightarrow> (val \<Rightarrow> exn + val) list \<Rightarrow> val \<Rightarrow> exn + val" where
  "then_combine g Fs s = (case eval_all Fs s of Inl e \<Rightarrow> Inl e | Inr vs \<Rightarrow> g vs)"

text \<open>
  The memo cell of a selector of the structural-equality factory with one input: when the
  cached argument is falsy, the cached result is a result of the combiner on it.
\<close>

definition memo_coherent :: "combiner \<Rightarrow> memo \<Rightarrow> bool" where
  "memo_coherent comb m =
     (\<forall>a. lastArgs m = Some [a] \<longrightarrow> \<not> truthy a \<longrightarrow>
          (\<exists>w. fst (comb [a] w) = Inr (lastResult m)))"

text \<open>
  The memo cell with respect to a value \<open>v\<close> on which the combiner's outcome is \<open>x\<close>:
  the cached argument is its own \<^verbatim>\<open>valueOf()\<close>, and when it is \<open>v\<close> the cached
  result is \<open>x\<close>.
\<close>

definition memo_plain :: "val \<Rightarrow> exn + val \<Rightarrow> memo \<Rightarrow> bool" where
  "memo_plain v x m =
     (\<forall>a. lastArgs m = Some [a] \<longrightarrow> value_of a = a \<and> (a = v \<longrightarrow> Inr (lastResult m) = x))"

text \<open>
  A call history in which every selected value is its own \<^verbatim>\<open>valueOf()\<close>: no selected
  object has a \<^verbatim>\<open>valueOf\<close> of its own that returns something else.
\<close>

definition plain_history :: "(val \<Rightarrow> exn + val) \<Rightarrow> val list \<Rightarrow> bool" where
  "plain_history selector history =
     list_all (\<lambda>s. case selector s of Inl e \<Rightarrow> True | Inr a \<Rightarrow> value_of a = a) history"





text \<open>The combiner of ensureJSSelector, by name.\<close>

definition ensureJS_combiner :: combiner where
  "ensureJS_combiner = (\<lambda>args w. let item = (if arg args 0 = Undefined then Null else arg args 0) in
        if \<not> truthy item \<or> typeof item \<noteq> ''object'' then (Inr item, w)
        else if has_property ''toJS'' item \<and> method_callable item ''toJS''
        then call_toJS item w
        else (Inr item, w))"




section \<open>Selectors of the default factory with a pure combiner\<close>

lemma implements_pure: "implements (pure_selector f) (\<lambda>u. True) f"
  by (simp add: implements_def pure_selector_def)

lemma run_dependencies_implements:
  "list_all2 (\<lambda>d F. implements d I F) deps Fs \<Longrightarrow> list_all2 (\<lambda>d m. I m) deps ms \<Longrightarrow>
   (case run_dependencies deps s ms w of (r, ms', w') \<Rightarrow>
      r = eval_all Fs s \<and> list_all2 (\<lambda>d m. I m) deps ms' \<and> w' = w)"
proof (induction deps arbitrary: Fs ms)
  case Nil
  then show ?case by simp
next
  case (Cons d deps)
  from Cons.prems(1) obtain F Fs' where Fs: "Fs = F # Fs'" and dF: "implements d I F"
    and rest: "list_all2 (\<lambda>d F. implements d I F) deps Fs'"
    by (auto simp: list_all2_Cons1)
  from Cons.prems(2) obtain m ms' where ms: "ms = m # ms'" and Im: "I m"
    and restm: "list_all2 (\<lambda>d m. I m) deps ms'"
    by (auto simp: list_all2_Cons1)
  obtain r m1 w1 where step: "d s m w = (r, m1, w1)" by (cases "d s m w") auto
  with dF Im have r: "r = F s" and I1: "I m1" and w1: "w1 = w"
    by (auto simp: implements_def dest!: spec[of _ s] spec[of _ m] spec[of _ w])
  from Cons.IH[OF rest restm] have IH:
    "case run_dependencies deps s ms' w of (r, ms'', w') \<Rightarrow>
      r = eval_all Fs' s \<and> list_all2 (\<lambda>d m. I m) deps ms'' \<and> w' = w" .
  show ?case
    using IH step r I1 w1 restm
    by (cases "run_dependencies deps s ms' w") (auto simp: Fs ms split: sum.splits)
qed

lemma createSelector_implements:
  assumes "list_all2 (\<lambda>d F. implements d I F) deps Fs"
  shows "implements (createSelector deps (\<lambda>args w. (g args, w)))
           (\<lambda>(ms, m). list_all2 (\<lambda>d m. I m) deps ms \<and> memo_ok g m)
           (then_combine g Fs)"
  unfolding implements_def
proof (intro allI impI)
  fix s :: val and mm :: "'a list \<times> memo" and w :: nat
  assume inv: "case mm of (ms, m) \<Rightarrow> list_all2 (\<lambda>d m. I m) deps ms \<and> memo_ok g m"
  obtain ms m where mm: "mm = (ms, m)" by (cases mm)
  with inv have I: "list_all2 (\<lambda>d m. I m) deps ms" and ok: "memo_ok g m" by auto
  obtain r ms' w' where run: "run_dependencies deps s ms w = (r, ms', w')"
    by (cases "run_dependencies deps s ms w") auto
  with run_dependencies_implements[OF assms I, of s w]
  have r: "r = eval_all Fs s" and I': "list_all2 (\<lambda>d m. I m) deps ms'" and w': "w' = w"
    by auto
  show "case createSelector deps (\<lambda>args w. (g args, w)) s mm w of
          (r, m', w') \<Rightarrow> r = then_combine g Fs s \<and>
            (case m' of (ms, m) \<Rightarrow> list_all2 (\<lambda>d m. I m) deps ms \<and> memo_ok g m) \<and> w' = w"
    using run r I' w' ok
    by (auto simp: mm createSelector_def createSelectorCreator_def defaultMemoize_def
        areArgumentsShallowlyEqual_def strict_equal_def[abs_def] list_all2_eq[symmetric]
        then_combine_def memo_ok_def
        split: sum.splits option.splits)
qed

lemma implements_after_calls:
  "implements sel I F \<Longrightarrow> I m \<Longrightarrow> I (fst (after_calls sel ss (m, w)))"
proof (induction ss arbitrary: m w)
  case Nil
  then show ?case by simp
next
  case (Cons s ss)
  obtain r m' w' where step: "sel s m w = (r, m', w')" by (cases "sel s m w") auto
  with Cons.prems have "I m'"
    by (auto simp: implements_def dest!: spec[of _ s] spec[of _ m] spec[of _ w])
  from Cons.IH[OF Cons.prems(1) this] show ?case by (simp add: step)
qed

lemma implements_outcome:
  assumes a: "implements sel I F" and b: "I m"
  shows "outcome sel s (after_calls sel ss (m, w)) = F s"
proof -
  obtain m' w' where ac: "after_calls sel ss (m, w) = (m', w')"
    by (cases "after_calls sel ss (m, w)")
  from implements_after_calls[OF a b, of ss w] ac have "I m'" by simp
  with a show ?thesis
    by (cases "sel s m' w'")
      (auto simp: ac outcome_def implements_def dest!: spec[of _ s] spec[of _ m'] spec[of _ w'])
qed

lemma memo_ok_memo0: "memo_ok g memo0"
  by (simp add: memo_ok_def memo0_def)

section \<open>Boolean inversion\<close>

lemma invertSelector_implements:
  "implements d I F \<Longrightarrow>
   implements (invertSelector d) (\<lambda>(ms, m). list_all2 (\<lambda>d m. I m) [d] ms \<and>
       memo_ok (\<lambda>args. Inr (Bool (\<not> truthy (arg args 0)))) m)
     (then_combine (\<lambda>args. Inr (Bool (\<not> truthy (arg args 0)))) [F])"
  unfolding invertSelector_def
  by (rule createSelector_implements) simp

text \<open>
  C7. For a selector whose result at a state is the boolean \<open>b\<close>, the inverted selector
  returns \<open>\<not> b\<close> at that state, whatever calls were made before, and the inversion of
  the inverted selector returns \<open>b\<close> again.
\<close>

theorem invertSelector_negates:
  assumes "selector s = Inr (Bool b)"
  shows "outcome (invertSelector (pure_selector selector)) s
           (after_calls (invertSelector (pure_selector selector)) history (([()], memo0), w))
         = Inr (Bool (\<not> b))
       \<and> outcome (invertSelector (invertSelector (pure_selector selector))) s
           (after_calls (invertSelector (invertSelector (pure_selector selector))) history
              (([([()], memo0)], memo0), w))
         = Inr (Bool b)"
proof -
  let ?g = "\<lambda>args. Inr (Bool (\<not> truthy (arg args 0)))"
  note one = invertSelector_implements[OF implements_pure, of selector]
  note two = invertSelector_implements[OF one]
  have "outcome (invertSelector (pure_selector selector)) s
           (after_calls (invertSelector (pure_selector selector)) history (([()], memo0), w))
         = then_combine ?g [selector] s"
    by (rule implements_outcome[OF one]) (simp add: memo_ok_memo0)
  moreover have "outcome (invertSelector (invertSelector (pure_selector selector))) s
           (after_calls (invertSelector (invertSelector (pure_selector selector))) history
              (([([()], memo0)], memo0), w))
         = then_combine ?g [then_combine ?g [selector]] s"
    by (rule implements_outcome[OF two]) (simp add: memo_ok_memo0)
  ultimately show ?thesis
    using assms by (simp add: then_combine_def arg_def)
qed

theorem invertSelector_negates_witness:
  "destructure ''isFirst'' (Plain 1 [(''isFirst'', Bool True)]) = Inr (Bool True)
   \<and> outcome (invertSelector (pure_selector (destructure ''isFirst'')))
       (Plain 1 [(''isFirst'', Bool True)])
       (after_calls (invertSelector (pure_selector (destructure ''isFirst'')))
          [Plain 2 [(''isFirst'', Bool False)]] (([()], memo0), 0))
     = Inr (Bool False)
   \<and> outcome (invertSelector (invertSelector (pure_selector (destructure ''isFirst''))))
       (Plain 1 [(''isFirst'', Bool True)])
       (after_calls (invertSelector (invertSelector (pure_selector (destructure ''isFirst''))))
          [Plain 2 [(''isFirst'', Bool False)]] (([([()], memo0)], memo0), 0))
     = Inr (Bool True)"
  using invertSelector_negates[of "destructure ''isFirst''" "Plain 1 [(''isFirst'', Bool True)]"
      True "[Plain 2 [(''isFirst'', Bool False)]]" 0]
  by (simp add: destructure_def)

section \<open>Key lookup: get and has\<close>

lemma createGetSelector_literal_implements:
  "implements (createGetSelector (pure_selector selector) (KeyLiteral k) d)
     (\<lambda>(ms, m). list_all2 (\<lambda>d m. True) [pure_selector selector] ms \<and>
        memo_ok (\<lambda>args. call_get (arg args 0) k d) m)
     (then_combine (\<lambda>args. call_get (arg args 0) k d) [selector])"
  unfolding createGetSelector_def key_param.case
  by (rule createSelector_implements) (simp add: implements_pure)

lemma createGetSelector_selector_implements:
  "implements (createGetSelector (pure_selector selector) (KeySelector (pure_selector keySelector)) d)
     (\<lambda>(ms, m). list_all2 (\<lambda>d m. True) [pure_selector selector, pure_selector keySelector] ms \<and>
        memo_ok (\<lambda>args. call_get (arg args 0) (arg args 1) d) m)
     (then_combine (\<lambda>args. call_get (arg args 0) (arg args 1) d) [selector, keySelector])"
  unfolding createGetSelector_def key_param.case
  by (rule createSelector_implements) (simp add: implements_pure)

lemma createGetSelector_literal_outcome:
  "outcome (createGetSelector (pure_selector selector) (KeyLiteral k) d) s
     (after_calls (createGetSelector (pure_selector selector) (KeyLiteral k) d) history
        (([()], memo0), w))
   = then_combine (\<lambda>args. call_get (arg args 0) k d) [selector] s"
  by (rule implements_outcome[OF createGetSelector_literal_implements])
    (simp add: memo_ok_memo0)

lemma createGetSelector_selector_outcome:
  "outcome (createGetSelector (pure_selector selector) (KeySelector (pure_selector keySelector)) d) s
     (after_calls (createGetSelector (pure_selector selector) (KeySelector (pure_selector keySelector)) d)
        history (([(), ()], memo0), w))
   = then_combine (\<lambda>args. call_get (arg args 0) (arg args 1) d) [selector, keySelector] s"
  by (rule implements_outcome[OF createGetSelector_selector_implements])
    (simp add: memo_ok_memo0)

lemma call_get_collection:
  "is_collection c \<Longrightarrow>
   call_get c k d = Inr (case value_at c k of Some v \<Rightarrow> v | None \<Rightarrow> d)"
  by (cases c; cases k) (auto simp: value_at_def)

text \<open>
  C5. When the container selector returns a persistent collection, the selector built
  by createGetSelector returns, after any call history, the container's value at the
  key, or defaultValue when the key is absent (undefined when the default given is
  undefined), for an associative container addressed by key as for a sequential one
  addressed by index; with a key selector, the key is the one that selector returns
  for the state of the call.
\<close>

theorem createGetSelector_lookup:
  assumes "selector s = Inr container" and "is_collection container"
  shows "outcome (createGetSelector (pure_selector selector) (KeyLiteral k) d) s
           (after_calls (createGetSelector (pure_selector selector) (KeyLiteral k) d) history
              (([()], memo0), w))
         = Inr (case value_at container k of Some v \<Rightarrow> v | None \<Rightarrow> d)
       \<and> (keySelector s = Inr k \<longrightarrow>
          outcome (createGetSelector (pure_selector selector)
                     (KeySelector (pure_selector keySelector)) d) s
            (after_calls (createGetSelector (pure_selector selector)
                            (KeySelector (pure_selector keySelector)) d) history
               (([(), ()], memo0), w))
          = Inr (case value_at container k of Some v \<Rightarrow> v | None \<Rightarrow> d))"
  using assms
  by (simp add: createGetSelector_literal_outcome createGetSelector_selector_outcome
      then_combine_def arg_def call_get_collection)


theorem createGetSelector_lookup_witness:
  "destructure ''contents''
     (Plain 1 [(''contents'', IMap 2 [(''key'', Str ''value''), (''bystander'', Str ''intervention'')]),
               (''k'', Str ''missing'')])
   = Inr (IMap 2 [(''key'', Str ''value''), (''bystander'', Str ''intervention'')])
   \<and> is_collection (IMap 2 [(''key'', Str ''value''), (''bystander'', Str ''intervention'')])
   \<and> destructure ''k''
     (Plain 1 [(''contents'', IMap 2 [(''key'', Str ''value''), (''bystander'', Str ''intervention'')]),
               (''k'', Str ''missing'')]) = Inr (Str ''missing'')
   \<and> outcome (createGetSelector (pure_selector (destructure ''contents''))
                (KeyLiteral (Str ''missing'')) (Str ''fallback''))
       (Plain 1 [(''contents'', IMap 2 [(''key'', Str ''value''), (''bystander'', Str ''intervention'')]),
                 (''k'', Str ''missing'')])
       (after_calls (createGetSelector (pure_selector (destructure ''contents''))
                       (KeyLiteral (Str ''missing'')) (Str ''fallback'')) [] (([()], memo0), 0))
     = Inr (Str ''fallback'')
   \<and> outcome (createGetSelector (pure_selector (destructure ''contents''))
                (KeySelector (pure_selector (destructure ''k''))) (Str ''fallback''))
       (Plain 1 [(''contents'', IMap 2 [(''key'', Str ''value''), (''bystander'', Str ''intervention'')]),
                 (''k'', Str ''missing'')])
       (after_calls (createGetSelector (pure_selector (destructure ''contents''))
                       (KeySelector (pure_selector (destructure ''k''))) (Str ''fallback'')) []
          (([(), ()], memo0), 0))
     = Inr (Str ''fallback'')"
  using createGetSelector_lookup[of "destructure ''contents''"
      "Plain 1 [(''contents'', IMap 2 [(''key'', Str ''value''), (''bystander'', Str ''intervention'')]),
                (''k'', Str ''missing'')]"
      "IMap 2 [(''key'', Str ''value''), (''bystander'', Str ''intervention'')]"
      "Str ''missing''" "Str ''fallback''" "[]" 0 "destructure ''k''"]
  by (simp add: destructure_def value_at_def)

lemma createHasSelector_literal_implements:
  "implements (createHasSelector (pure_selector selector) (KeyLiteral k))
     (\<lambda>(ms, m). list_all2 (\<lambda>d m. True) [pure_selector selector] ms \<and>
        memo_ok (\<lambda>args. call_has (arg args 0) k) m)
     (then_combine (\<lambda>args. call_has (arg args 0) k) [selector])"
  unfolding createHasSelector_def key_param.case
  by (rule createSelector_implements) (simp add: implements_pure)

lemma createHasSelector_selector_implements:
  "implements (createHasSelector (pure_selector selector) (KeySelector (pure_selector keySelector)))
     (\<lambda>(ms, m). list_all2 (\<lambda>d m. True) [pure_selector selector, pure_selector keySelector] ms \<and>
        memo_ok (\<lambda>args. call_has (arg args 0) (arg args 1)) m)
     (then_combine (\<lambda>args. call_has (arg args 0) (arg args 1)) [selector, keySelector])"
  unfolding createHasSelector_def key_param.case
  by (rule createSelector_implements) (simp add: implements_pure)

lemma createHasSelector_literal_outcome:
  "outcome (createHasSelector (pure_selector selector) (KeyLiteral k)) s
     (after_calls (createHasSelector (pure_selector selector) (KeyLiteral k)) history
        (([()], memo0), w))
   = then_combine (\<lambda>args. call_has (arg args 0) k) [selector] s"
  by (rule implements_outcome[OF createHasSelector_literal_implements])
    (simp add: memo_ok_memo0)

lemma createHasSelector_selector_outcome:
  "outcome (createHasSelector (pure_selector selector) (KeySelector (pure_selector keySelector))) s
     (after_calls (createHasSelector (pure_selector selector) (KeySelector (pure_selector keySelector)))
        history (([(), ()], memo0), w))
   = then_combine (\<lambda>args. call_has (arg args 0) (arg args 1)) [selector, keySelector] s"
  by (rule implements_outcome[OF createHasSelector_selector_implements])
    (simp add: memo_ok_memo0)

lemma call_has_collection:
  "is_collection c \<Longrightarrow> call_has c k = Inr (Bool (value_at c k \<noteq> None))"
  by (cases c; cases k) (auto simp: value_at_def)

text \<open>
  C6. createHasSelector branches on the key as createGetSelector does; when the
  container selector returns a persistent collection, the selector returns, after any
  call history, the boolean that is true exactly when the key is present in the
  container.
\<close>

theorem createHasSelector_membership:
  assumes "selector s = Inr container" and "is_collection container"
  shows "outcome (createHasSelector (pure_selector selector) (KeyLiteral k)) s
           (after_calls (createHasSelector (pure_selector selector) (KeyLiteral k)) history
              (([()], memo0), w))
         = Inr (Bool (value_at container k \<noteq> None))
       \<and> (keySelector s = Inr k \<longrightarrow>
          outcome (createHasSelector (pure_selector selector)
                     (KeySelector (pure_selector keySelector))) s
            (after_calls (createHasSelector (pure_selector selector)
                            (KeySelector (pure_selector keySelector))) history
               (([(), ()], memo0), w))
          = Inr (Bool (value_at container k \<noteq> None)))"
  using assms
  by (simp add: createHasSelector_literal_outcome createHasSelector_selector_outcome
      then_combine_def arg_def call_has_collection)

theorem createHasSelector_membership_witness:
  "destructure ''contents''
     (Plain 1 [(''contents'', IList 2 [Str ''zeroth'', Str ''first'']), (''k'', Num 1)])
   = Inr (IList 2 [Str ''zeroth'', Str ''first''])
   \<and> is_collection (IList 2 [Str ''zeroth'', Str ''first''])
   \<and> destructure ''k''
     (Plain 1 [(''contents'', IList 2 [Str ''zeroth'', Str ''first'']), (''k'', Num 1)]) = Inr (Num 1)
   \<and> outcome (createHasSelector (pure_selector (destructure ''contents'')) (KeyLiteral (Num 1)))
       (Plain 1 [(''contents'', IList 2 [Str ''zeroth'', Str ''first'']), (''k'', Num 1)])
       (after_calls (createHasSelector (pure_selector (destructure ''contents'')) (KeyLiteral (Num 1)))
          [Plain 3 [(''contents'', IList 4 [Str ''zeroth''])]] (([()], memo0), 0))
     = Inr (Bool True)
   \<and> outcome (createHasSelector (pure_selector (destructure ''contents''))
                (KeySelector (pure_selector (destructure ''k''))))
       (Plain 1 [(''contents'', IList 2 [Str ''zeroth'', Str ''first'']), (''k'', Num 1)])
       (after_calls (createHasSelector (pure_selector (destructure ''contents''))
                       (KeySelector (pure_selector (destructure ''k''))))
          [Plain 3 [(''contents'', IList 4 [Str ''zeroth''])]] (([(), ()], memo0), 0))
     = Inr (Bool True)"
  using createHasSelector_membership[of "destructure ''contents''"
      "Plain 1 [(''contents'', IList 2 [Str ''zeroth'', Str ''first'']), (''k'', Num 1)]"
      "IList 2 [Str ''zeroth'', Str ''first'']" "Num 1"
      "[Plain 3 [(''contents'', IList 4 [Str ''zeroth''])]]" 0 "destructure ''k''"]
  by (simp add: destructure_def value_at_def)

section \<open>Selectors of the structural-equality factory\<close>

lemma immutable_is_falsy: "\<not> truthy b \<Longrightarrow> immutable_is a b = (a = b)"
  by (subst immutable_is.simps) simp

lemma immutable_is_identity:
  assumes "value_of a = a" and "value_of b = b" and "\<not> method_callable b ''equals''"
  shows "immutable_is a b = (a = b)"
  using assms by (subst immutable_is.simps) simp

lemma shallow_single:
  "areArgumentsShallowlyEqual eq prev [v] = (\<exists>a. prev = Some [a] \<and> eq a v)"
  by (cases prev) (auto simp: areArgumentsShallowlyEqual_def list_all2_Cons2)

lemma comparing_call:
  "createImmutableComparingSelector [pure_selector f] comb s ([()], m) w =
     (case f s of
        Inl e \<Rightarrow> (Inl e, ([()], m), w)
      | Inr v \<Rightarrow>
          (case defaultMemoize comb immutable_is [v] m w of
             (r, m', w') \<Rightarrow> (r, ([()], m'), w')))"
  by (simp add: createImmutableComparingSelector_def createSelectorCreator_def
      pure_selector_def split: sum.splits)

lemma comparing_hit:
  assumes "f s = Inr b" and "lastArgs m = Some [a]" and "immutable_is a b"
  shows "createImmutableComparingSelector [pure_selector f] comb s ([()], m) w =
           (Inr (lastResult m), ([()], m\<lparr>lastArgs := Some [b]\<rparr>), w)"
  using assms by (simp add: comparing_call defaultMemoize_def shallow_single)

lemma comparing_returns:
  assumes "f s = Inr a"
    and "createImmutableComparingSelector [pure_selector f] comb s ([()], m) w = (Inr r, st, w')"
  shows "\<exists>m'. st = ([()], m') \<and> lastArgs m' = Some [a] \<and> lastResult m' = r"
  using assms
  by (auto simp: comparing_call defaultMemoize_def split: if_splits prod.splits sum.splits)

lemma comparing_step:
  assumes "memo_coherent comb m"
  shows "\<exists>r m' w'. createImmutableComparingSelector [pure_selector f] comb s ([()], m) w
             = (r, ([()], m'), w') \<and> memo_coherent comb m' \<and>
           (\<forall>v. f s = Inr v \<longrightarrow> \<not> truthy v \<longrightarrow> (\<exists>w0. r = fst (comb [v] w0)))"
proof (cases "f s")
  case (Inl e)
  then show ?thesis using assms by (simp add: comparing_call)
next
  case (Inr v)
  show ?thesis
  proof (cases "areArgumentsShallowlyEqual immutable_is (lastArgs m) [v]")
    case True
    then obtain a where a: "lastArgs m = Some [a]" and eq_is: "immutable_is a v"
      by (auto simp: shallow_single)
    have call: "createImmutableComparingSelector [pure_selector f] comb s ([()], m) w =
           (Inr (lastResult m), ([()], m\<lparr>lastArgs := Some [v]\<rparr>), w)"
      using Inr a eq_is by (rule comparing_hit[where f=f and s=s])
    have coh: "memo_coherent comb (m\<lparr>lastArgs := Some [v]\<rparr>)"
      using assms a eq_is by (auto simp: memo_coherent_def immutable_is_falsy)
    have "\<not> truthy v \<Longrightarrow> \<exists>w0. Inr (lastResult m) = fst (comb [v] w0)"
      using assms a eq_is by (auto simp: memo_coherent_def immutable_is_falsy) metis
    then show ?thesis using call coh Inr by auto
  next
    case False
    obtain r w' where c: "comb [v] w = (r, w')" by (cases "comb [v] w")
    show ?thesis
    proof (cases r)
      case (Inl e)
      then show ?thesis using False c Inr assms
        by (auto simp: comparing_call defaultMemoize_def intro: exI[of _ w])
    next
      case (Inr x)
      have "memo_coherent comb \<lparr>lastArgs = Some [v], lastResult = x\<rparr>"
        using c Inr by (auto simp: memo_coherent_def intro: exI[of _ w])
      then show ?thesis using False c Inr \<open>f s = Inr v\<close>
        by (auto simp: comparing_call defaultMemoize_def intro: exI[of _ w])
    qed
  qed
qed

lemma memo_coherent_memo0: "memo_coherent comb memo0"
  by (simp add: memo_coherent_def memo0_def)

lemma comparing_after_calls:
  "memo_coherent comb m \<Longrightarrow>
   \<exists>m' w'. after_calls (createImmutableComparingSelector [pure_selector f] comb) hist (([()], m), w)
              = (([()], m'), w') \<and> memo_coherent comb m'"
proof (induction hist arbitrary: m w)
  case Nil
  then show ?case by simp
next
  case (Cons s hist)
  from comparing_step[OF Cons.prems, of f s w] obtain r m1 w1 where
    step: "createImmutableComparingSelector [pure_selector f] comb s ([()], m) w = (r, ([()], m1), w1)"
    and coh: "memo_coherent comb m1" by blast
  from Cons.IH[OF coh, of w1] show ?case by (simp add: step)
qed

lemma comparing_outcome:
  assumes "f s = Inr v" and "\<not> truthy v"
  shows "\<exists>w0. outcome (createImmutableComparingSelector [pure_selector f] comb) s
            (after_calls (createImmutableComparingSelector [pure_selector f] comb) hist
               (([()], memo0), w)) = fst (comb [v] w0)"
proof -
  from comparing_after_calls[OF memo_coherent_memo0, of f comb hist w] obtain m' w' where
    ac: "after_calls (createImmutableComparingSelector [pure_selector f] comb) hist (([()], memo0), w)
           = (([()], m'), w')" and coh: "memo_coherent comb m'" by blast
  from comparing_step[OF coh, of f s w'] assms show ?thesis
    by (auto simp: ac outcome_def)
qed


lemma after_calls_append:
  "after_calls sel (xs @ ys) mw = after_calls sel ys (after_calls sel xs mw)"
proof (induction xs arbitrary: mw)
  case Nil
  then show ?case by simp
next
  case (Cons x xs)
  then show ?case by (cases mw) (simp split: prod.splits)
qed

lemma comparing_chain:
  assumes "map f cs = map Inr xs" and "successively immutable_is (a # xs)"
    and "lastArgs m = Some [a]"
  shows "after_calls (createImmutableComparingSelector [pure_selector f] comb) cs (([()], m), w)
         = (([()], m\<lparr>lastArgs := Some [last (a # xs)]\<rparr>), w)"
  using assms
proof (induction cs arbitrary: xs a m)
  case Nil
  then show ?case by simp
next
  case (Cons c cs)
  from Cons.prems(1) obtain x xs' where xs: "xs = x # xs'" and fc: "f c = Inr x"
    and rest: "map f cs = map Inr xs'" by (cases xs) auto
  from Cons.prems(2) xs have eq_is: "immutable_is a x" and chain: "successively immutable_is (x # xs')"
    by auto
  have step: "createImmutableComparingSelector [pure_selector f] comb c ([()], m) w =
           (Inr (lastResult m), ([()], m\<lparr>lastArgs := Some [x]\<rparr>), w)"
    using fc Cons.prems(3) eq_is by (rule comparing_hit[where f=f and s=c])
  from Cons.IH[OF rest chain, of "m\<lparr>lastArgs := Some [x]\<rparr>"] show ?case
    by (simp add: step xs)
qed

lemma comparing_stable:
  assumes rets: "map f (sA # mids @ [sB]) = map Inr vals"
    and chain: "successively immutable_is vals"
    and first: "outcome (createImmutableComparingSelector [pure_selector f] comb) sA
            (after_calls (createImmutableComparingSelector [pure_selector f] comb) history
               (([()], memo0), w)) = Inr r"
  shows "outcome (createImmutableComparingSelector [pure_selector f] comb) sB
            (after_calls (createImmutableComparingSelector [pure_selector f] comb)
               (history @ sA # mids) (([()], memo0), w)) = Inr r"
proof -
  let ?S = "createImmutableComparingSelector [pure_selector f] comb"
  from rets obtain a xs b where vals: "vals = a # xs @ [b]" and fa: "f sA = Inr a"
    and fm: "map f mids = map Inr xs" and fb: "f sB = Inr b"
  proof -
    from rets obtain a rest where v: "vals = a # rest" and fa: "f sA = Inr a"
      and r: "map f mids @ [f sB] = map Inr rest" by (cases vals) auto
    from r obtain xs bs where "rest = xs @ bs" and "map f mids = map Inr xs"
      and "[f sB] = map Inr bs" by (auto simp: append_eq_map_conv)
    moreover then obtain b where "bs = [b]" and "f sB = Inr b" by (cases bs) auto
    ultimately show ?thesis using that v fa by blast
  qed
  from comparing_after_calls[OF memo_coherent_memo0, of f comb history w] obtain m0 w0 where
    ac: "after_calls ?S history (([()], memo0), w) = (([()], m0), w0)" by blast
  obtain rr st1 w1 where callA: "?S sA ([()], m0) w0 = (rr, st1, w1)" by (cases "?S sA ([()], m0) w0")
  with first ac have rr: "rr = Inr r" by (simp add: outcome_def)
  from comparing_returns[OF fa callA[unfolded rr]] obtain m1 where
    st1: "st1 = ([()], m1)" and la: "lastArgs m1 = Some [a]" and lr: "lastResult m1 = r" by blast
  from chain vals have c1: "successively immutable_is (a # xs)"
    and c2: "immutable_is (last (a # xs)) b"
  proof -
    from chain vals have "successively immutable_is ((a # xs) @ [b])" by simp
    then show "successively immutable_is (a # xs)" and "immutable_is (last (a # xs)) b"
      unfolding successively_append_iff by (simp_all del: last.simps)
  qed
  have mid: "after_calls ?S mids (([()], m1), w1) = (([()], m1\<lparr>lastArgs := Some [last (a # xs)]\<rparr>), w1)"
    by (rule comparing_chain[OF fm c1 la])
  have "after_calls ?S (history @ sA # mids) (([()], memo0), w)
        = (([()], m1\<lparr>lastArgs := Some [last (a # xs)]\<rparr>), w1)"
    by (simp add: after_calls_append ac callA st1 mid)
  moreover have "?S sB ([()], m1\<lparr>lastArgs := Some [last (a # xs)]\<rparr>) w1
        = (Inr r, ([()], m1\<lparr>lastArgs := Some [b]\<rparr>), w1)"
    using comparing_hit[where f=f and s=sB and b=b and a="last (a # xs)"
        and m="m1\<lparr>lastArgs := Some [last (a # xs)]\<rparr>" and comb=comb and w=w1] fb c2 lr
    by simp
  ultimately show ?thesis by (simp add: outcome_def)
qed

lemma comparing_miss:
  assumes "f s = Inr v" and "\<forall>a. lastArgs m = Some [a] \<longrightarrow> \<not> immutable_is a v"
  shows "fst (createImmutableComparingSelector [pure_selector f] comb s ([()], m) w)
         = fst (comb [v] w)"
  using assms
  by (auto simp: comparing_call defaultMemoize_def shallow_single split: prod.splits sum.splits)

lemma comparing_first:
  assumes "f s = Inr v"
  shows "outcome (createImmutableComparingSelector [pure_selector f] comb) s
           (after_calls (createImmutableComparingSelector [pure_selector f] comb) []
              (([()], memo0), w)) = fst (comb [v] w)"
  using comparing_miss[where f=f and s=s and v=v and m=memo0 and comb=comb and w=w] assms
  by (simp add: outcome_def memo0_def)

lemma comparing_after_returning:
  assumes prev: "f s' = Inr a"
    and returned: "outcome (createImmutableComparingSelector [pure_selector f] comb) s'
           (after_calls (createImmutableComparingSelector [pure_selector f] comb) history
              (([()], memo0), w)) = Inr r"
    and differs: "\<not> immutable_is a v" and cur: "f s = Inr v"
  shows "\<exists>w0. outcome (createImmutableComparingSelector [pure_selector f] comb) s
           (after_calls (createImmutableComparingSelector [pure_selector f] comb) (history @ [s'])
              (([()], memo0), w)) = fst (comb [v] w0)"
proof -
  let ?S = "createImmutableComparingSelector [pure_selector f] comb"
  from comparing_after_calls[OF memo_coherent_memo0, of f comb history w] obtain m0 w0 where
    ac: "after_calls ?S history (([()], memo0), w) = (([()], m0), w0)" by blast
  obtain rr st1 w1 where call: "?S s' ([()], m0) w0 = (rr, st1, w1)"
    by (cases "?S s' ([()], m0) w0")
  with returned ac have rr: "rr = Inr r" by (simp add: outcome_def)
  from prev call[unfolded rr] have "\<exists>m'. st1 = ([()], m') \<and> lastArgs m' = Some [a] \<and> lastResult m' = r"
    by (rule comparing_returns[where f=f and s=s'])
  then obtain m1 where st1: "st1 = ([()], m1)" and la: "lastArgs m1 = Some [a]" by blast
  have "after_calls ?S (history @ [s']) (([()], memo0), w) = (([()], m1), w1)"
    by (simp add: after_calls_append ac call st1)
  moreover have "fst (?S s ([()], m1) w1) = fst (comb [v] w1)"
    using cur la differs by (intro comparing_miss) auto
  ultimately show ?thesis by (auto simp: outcome_def)
qed

lemma comparing_plain_step:
  assumes inv: "memo_plain v x m" and out: "\<forall>w0. fst (comb [v] w0) = x"
    and v: "value_of v = v" "\<not> method_callable v ''equals''"
    and plain: "case f s of Inl e \<Rightarrow> True | Inr a \<Rightarrow> value_of a = a"
  shows "\<exists>r m' w'. createImmutableComparingSelector [pure_selector f] comb s ([()], m) w
             = (r, ([()], m'), w') \<and> memo_plain v x m' \<and> (f s = Inr v \<longrightarrow> r = x)"
proof (cases "f s")
  case (Inl e)
  then show ?thesis using inv by (simp add: comparing_call)
next
  case (Inr b)
  with plain have b: "value_of b = b" by simp
  show ?thesis
  proof (cases "areArgumentsShallowlyEqual immutable_is (lastArgs m) [b]")
    case True
    then obtain a where a: "lastArgs m = Some [a]" and eq_is: "immutable_is a b"
      by (auto simp: shallow_single)
    have call: "createImmutableComparingSelector [pure_selector f] comb s ([()], m) w =
           (Inr (lastResult m), ([()], m\<lparr>lastArgs := Some [b]\<rparr>), w)"
      using Inr a eq_is by (rule comparing_hit[where f=f and s=s])
    from inv a have va: "value_of a = a" and av: "a = v \<longrightarrow> Inr (lastResult m) = x"
      by (auto simp: memo_plain_def)
    have same: "b = v \<Longrightarrow> a = v"
      using eq_is immutable_is_identity[OF va v(1) v(2)] by simp
    have "memo_plain v x (m\<lparr>lastArgs := Some [b]\<rparr>)"
      using b av same by (auto simp: memo_plain_def)
    moreover have "f s = Inr v \<longrightarrow> Inr (lastResult m) = x"
      using Inr av same by auto
    ultimately show ?thesis using call by auto
  next
    case False
    obtain r w' where c: "comb [b] w = (r, w')" by (cases "comb [b] w")
    from out have outv: "b = v \<Longrightarrow> r = x" using c by (metis fst_conv)
    show ?thesis
    proof (cases r)
      case (Inl e)
      then show ?thesis using False c Inr inv outv
        by (auto simp: comparing_call defaultMemoize_def)
    next
      case (Inr y)
      have "memo_plain v x \<lparr>lastArgs = Some [b], lastResult = y\<rparr>"
        using b outv Inr by (auto simp: memo_plain_def)
      then show ?thesis using False c Inr \<open>f s = Inr b\<close> outv
        by (auto simp: comparing_call defaultMemoize_def)
    qed
  qed
qed

lemma memo_plain_memo0: "memo_plain v x memo0"
  by (simp add: memo_plain_def memo0_def)

lemma comparing_plain_after_calls:
  assumes out: "\<forall>w0. fst (comb [v] w0) = x"
    and v: "value_of v = v" "\<not> method_callable v ''equals''"
  shows "memo_plain v x m \<Longrightarrow> plain_history f hist \<Longrightarrow>
   \<exists>m' w'. after_calls (createImmutableComparingSelector [pure_selector f] comb) hist (([()], m), w)
              = (([()], m'), w') \<and> memo_plain v x m'"
proof (induction hist arbitrary: m w)
  case Nil
  then show ?case by simp
next
  case (Cons s hist)
  from Cons.prems(2) have here: "case f s of Inl e \<Rightarrow> True | Inr a \<Rightarrow> value_of a = a"
    and rest: "plain_history f hist" by (auto simp: plain_history_def)
  have "\<exists>r m' w'. createImmutableComparingSelector [pure_selector f] comb s ([()], m) w
             = (r, ([()], m'), w') \<and> memo_plain v x m' \<and> (f s = Inr v \<longrightarrow> r = x)"
    using Cons.prems(1) out v here
    by (rule comparing_plain_step[where comb=comb and f=f and s=s])
  then obtain r m1 w1 where
    step: "createImmutableComparingSelector [pure_selector f] comb s ([()], m) w = (r, ([()], m1), w1)"
    and inv: "memo_plain v x m1" by blast
  from Cons.IH[OF inv rest, of w1] show ?case by (simp add: step)
qed

lemma comparing_plain_outcome:
  assumes cur: "f s = Inr v" and out: "\<forall>w0. fst (comb [v] w0) = x"
    and v: "value_of v = v" "\<not> method_callable v ''equals''"
    and hist: "plain_history f hist"
  shows "outcome (createImmutableComparingSelector [pure_selector f] comb) s
            (after_calls (createImmutableComparingSelector [pure_selector f] comb) hist
               (([()], memo0), w)) = x"
proof -
  let ?S = "createImmutableComparingSelector [pure_selector f] comb"
  have "\<exists>m' w'. after_calls ?S hist (([()], memo0), w) = (([()], m'), w') \<and> memo_plain v x m'"
    using out v memo_plain_memo0 hist
    by (rule comparing_plain_after_calls[where comb=comb and f=f])
  then obtain m' w' where
    ac: "after_calls ?S hist (([()], memo0), w) = (([()], m'), w')"
    and inv: "memo_plain v x m'" by blast
  have here: "case f s of Inl e \<Rightarrow> True | Inr a \<Rightarrow> value_of a = a" using cur v(1) by simp
  have "\<exists>r m'' w''. ?S s ([()], m') w' = (r, ([()], m''), w'') \<and> memo_plain v x m'' \<and>
          (f s = Inr v \<longrightarrow> r = x)"
    using inv out v here by (rule comparing_plain_step[where comb=comb and f=f and s=s])
  with cur show ?thesis
    by (auto simp: ac outcome_def)
qed

section \<open>Reference stability of the normalizing selectors\<close>

lemmas run_defs =
  selectorToJS_def ensureJSSelector_def createImmutableComparingSelector_def
  createSelectorCreator_def defaultMemoize_def areArgumentsShallowlyEqual_def
  pure_selector_def destructure_def outcome_def memo0_def arg_def
  immutable_is.simps object_methods_def collection_methods_def

text \<open>
  C1, as amended. The memo of a normalizing selector holds one prior call. If every
  call from \<open>S(stateA)\<close> up to \<open>S(stateB)\<close> selects a value that is structurally
  equal (by the deep-equality predicate) to the value selected by the call before it, in
  particular when \<open>S(stateB)\<close> is the call right after \<open>S(stateA)\<close>, then
  \<open>S(stateB)\<close> returns the very reference \<open>S(stateA)\<close> returned, for the
  selectors of selectorToJS and of ensureJSSelector, also when the selected values are
  distinct references.
\<close>

theorem normalizing_selector_reference_stable:
  assumes "map selector (stateA # between @ [stateB]) = map Inr values"
    and "successively immutable_is values"
  shows "(outcome (selectorToJS (pure_selector selector)) stateA
            (after_calls (selectorToJS (pure_selector selector)) history (([()], memo0), w)) = Inr r
          \<longrightarrow> outcome (selectorToJS (pure_selector selector)) stateB
            (after_calls (selectorToJS (pure_selector selector)) (history @ stateA # between)
               (([()], memo0), w)) = Inr r)
       \<and> (outcome (ensureJSSelector (pure_selector selector)) stateA
            (after_calls (ensureJSSelector (pure_selector selector)) history (([()], memo0), w)) = Inr r
          \<longrightarrow> outcome (ensureJSSelector (pure_selector selector)) stateB
            (after_calls (ensureJSSelector (pure_selector selector)) (history @ stateA # between)
               (([()], memo0), w)) = Inr r)"
  unfolding selectorToJS_def ensureJSSelector_def
  using comparing_stable[OF assms] by blast

theorem normalizing_selector_reference_stable_witness:
  "map (destructure ''contents'')
     (Plain 1 [(''contents'', IList 2 [Num 1, Num 2, Num 3])] # [] @
      [Plain 3 [(''contents'', IList 4 [Num 1, Num 2, Num 3])]])
   = map Inr [IList 2 [Num 1, Num 2, Num 3], IList 4 [Num 1, Num 2, Num 3]]
   \<and> successively immutable_is [IList 2 [Num 1, Num 2, Num 3], IList 4 [Num 1, Num 2, Num 3]]
   \<and> outcome (selectorToJS (pure_selector (destructure ''contents'')))
        (Plain 1 [(''contents'', IList 2 [Num 1, Num 2, Num 3])])
        (after_calls (selectorToJS (pure_selector (destructure ''contents''))) []
           (([()], memo0), 10)) = Inr (Array 10 [Num 1, Num 2, Num 3])
   \<and> outcome (selectorToJS (pure_selector (destructure ''contents'')))
        (Plain 3 [(''contents'', IList 4 [Num 1, Num 2, Num 3])])
        (after_calls (selectorToJS (pure_selector (destructure ''contents'')))
           ([] @ Plain 1 [(''contents'', IList 2 [Num 1, Num 2, Num 3])] # [])
           (([()], memo0), 10)) = Inr (Array 10 [Num 1, Num 2, Num 3])
   \<and> outcome (ensureJSSelector (pure_selector (destructure ''contents'')))
        (Plain 1 [(''contents'', IList 2 [Num 1, Num 2, Num 3])])
        (after_calls (ensureJSSelector (pure_selector (destructure ''contents''))) []
           (([()], memo0), 10)) = Inr (Array 10 [Num 1, Num 2, Num 3])
   \<and> outcome (ensureJSSelector (pure_selector (destructure ''contents'')))
        (Plain 3 [(''contents'', IList 4 [Num 1, Num 2, Num 3])])
        (after_calls (ensureJSSelector (pure_selector (destructure ''contents'')))
           ([] @ Plain 1 [(''contents'', IList 2 [Num 1, Num 2, Num 3])] # [])
           (([()], memo0), 10)) = Inr (Array 10 [Num 1, Num 2, Num 3])"
proof -
  have rets: "map (destructure ''contents'')
     (Plain 1 [(''contents'', IList 2 [Num 1, Num 2, Num 3])] # [] @
      [Plain 3 [(''contents'', IList 4 [Num 1, Num 2, Num 3])]])
   = map Inr [IList 2 [Num 1, Num 2, Num 3], IList 4 [Num 1, Num 2, Num 3]]"
    by (simp add: destructure_def)
  have chain: "successively immutable_is [IList 2 [Num 1, Num 2, Num 3], IList 4 [Num 1, Num 2, Num 3]]"
    by (simp add: immutable_is.simps object_methods_def collection_methods_def)
  have a1: "outcome (selectorToJS (pure_selector (destructure ''contents'')))
        (Plain 1 [(''contents'', IList 2 [Num 1, Num 2, Num 3])])
        (after_calls (selectorToJS (pure_selector (destructure ''contents''))) []
           (([()], memo0), 10)) = Inr (Array 10 [Num 1, Num 2, Num 3])"
    by (simp add: run_defs)
  have a2: "outcome (ensureJSSelector (pure_selector (destructure ''contents'')))
        (Plain 1 [(''contents'', IList 2 [Num 1, Num 2, Num 3])])
        (after_calls (ensureJSSelector (pure_selector (destructure ''contents''))) []
           (([()], memo0), 10)) = Inr (Array 10 [Num 1, Num 2, Num 3])"
    by (simp add: run_defs)
  from normalizing_selector_reference_stable[OF rets chain, of "[]" 10 "Array 10 [Num 1, Num 2, Num 3]"]
    rets chain a1 a2
  show ?thesis by blast
qed

text \<open>
  C1 as stated fails for two calls that are not successive: the selected values of the
  first and the third call are structurally equal, the second call selected an empty
  list in between, and the third call returns a newly converted array.
\<close>

theorem reference_stability_any_two_calls_counterexample:
  "destructure ''contents'' (Plain 1 [(''contents'', IList 2 [Num 1])]) = Inr (IList 2 [Num 1])
   \<and> destructure ''contents'' (Plain 5 [(''contents'', IList 6 [Num 1])]) = Inr (IList 6 [Num 1])
   \<and> immutable_is (IList 2 [Num 1]) (IList 6 [Num 1])
   \<and> outcome (selectorToJS (pure_selector (destructure ''contents'')))
        (Plain 1 [(''contents'', IList 2 [Num 1])])
        (after_calls (selectorToJS (pure_selector (destructure ''contents''))) []
           (([()], memo0), 10)) = Inr (Array 10 [Num 1])
   \<and> outcome (selectorToJS (pure_selector (destructure ''contents'')))
        (Plain 5 [(''contents'', IList 6 [Num 1])])
        (after_calls (selectorToJS (pure_selector (destructure ''contents'')))
           [Plain 1 [(''contents'', IList 2 [Num 1])], Plain 3 [(''contents'', IList 4 [])]]
           (([()], memo0), 10)) = Inr (Array 12 [Num 1])
   \<and> Array 10 [Num 1] \<noteq> Array 12 [Num 1]"
  by (simp add: run_defs)

section \<open>What the normalizing selectors return\<close>

lemma ensureJSSelector_alt:
  "ensureJSSelector selector = createImmutableComparingSelector [selector] ensureJS_combiner"
  by (simp add: ensureJSSelector_def ensureJS_combiner_def)


lemma call_toJS_not_callable: "\<not> method_callable v ''toJS'' \<Longrightarrow> fst (call_toJS v w) = Inl TypeError"
  by (cases v)
    (auto simp: collection_methods_def object_methods_def split: option.splits val.splits)



lemma ensureJS_combiner_falsy:
  "\<not> truthy v \<Longrightarrow> ensureJS_combiner [v] w = (Inr (if v = Undefined then Null else v), w)"
  by (cases v) (auto simp: ensureJS_combiner_def arg_def Let_def)

lemma selectorToJS_outcome:
  assumes "selector s = Inr v" and "\<not> truthy v"
  shows "outcome (selectorToJS (pure_selector selector)) s
           (after_calls (selectorToJS (pure_selector selector)) history (([()], memo0), w))
         = Inr Null"
  using assms comparing_outcome[where f=selector and s=s and v=v and hist=history and w=w and comb=
      "\<lambda>args w. let raw = arg args 0 in if truthy raw then call_toJS raw w else (Inr Null, w)"]
  by (auto simp: selectorToJS_def arg_def Let_def)

lemma ensureJSSelector_outcome:
  assumes "selector s = Inr v" and "\<not> truthy v"
  shows "outcome (ensureJSSelector (pure_selector selector)) s
           (after_calls (ensureJSSelector (pure_selector selector)) history (([()], memo0), w))
         = Inr (if v = Undefined then Null else v)"
  using assms comparing_outcome[where f=selector and s=s and v=v and hist=history and w=w
      and comb=ensureJS_combiner]
  by (auto simp: ensureJSSelector_alt ensureJS_combiner_falsy)


text \<open>
  C3, as amended. For every state in which the value produced by the wrapped selector
  is falsy, the selector of selectorToJS returns null; the selector of ensureJSSelector
  returns null when that value is undefined or null, and returns the other falsy values
  (false, 0, the empty string) unchanged.
\<close>

theorem falsy_normalization:
  assumes "selector s = Inr v" and "\<not> truthy v"
  shows "outcome (selectorToJS (pure_selector selector)) s
           (after_calls (selectorToJS (pure_selector selector)) history (([()], memo0), w))
         = Inr Null
       \<and> outcome (ensureJSSelector (pure_selector selector)) s
           (after_calls (ensureJSSelector (pure_selector selector)) history (([()], memo0), w))
         = Inr (if v = Undefined \<or> v = Null then Null else v)"
  using selectorToJS_outcome[where selector=selector and s=s and v=v and history=history and w=w]
    ensureJSSelector_outcome[where selector=selector and s=s and v=v and history=history and w=w]
    assms
  by auto

theorem falsy_normalization_witness:
  "destructure ''present'' (Plain 1 [(''present'', Num 0)]) = Inr (Num 0)
   \<and> \<not> truthy (Num 0)
   \<and> outcome (selectorToJS (pure_selector (destructure ''present''))) (Plain 1 [(''present'', Num 0)])
       (after_calls (selectorToJS (pure_selector (destructure ''present'')))
          [Plain 2 [(''present'', IList 3 [])]] (([()], memo0), 10))
     = Inr Null
   \<and> outcome (ensureJSSelector (pure_selector (destructure ''present''))) (Plain 1 [(''present'', Num 0)])
       (after_calls (ensureJSSelector (pure_selector (destructure ''present'')))
          [Plain 2 [(''present'', IList 3 [])]] (([()], memo0), 10))
     = Inr (Num 0)"
  using falsy_normalization[of "destructure ''present''" "Plain 1 [(''present'', Num 0)]" "Num 0"
      "[Plain 2 [(''present'', IList 3 [])]]" 10]
  by (simp add: destructure_def)

text \<open>
  C3 as stated fails for ensureJSSelector: the selected value is \<^verbatim>\<open>false\<close>, and
  the selector returns \<^verbatim>\<open>false\<close>, not null.
\<close>

theorem ensureJSSelector_falsy_counterexample:
  "destructure ''present'' (Plain 1 [(''present'', Bool False)]) = Inr (Bool False)
   \<and> \<not> truthy (Bool False)
   \<and> outcome (ensureJSSelector (pure_selector (destructure ''present'')))
       (Plain 1 [(''present'', Bool False)])
       (after_calls (ensureJSSelector (pure_selector (destructure ''present''))) []
          (([()], memo0), 10))
     = Inr (Bool False)
   \<and> Bool False \<noteq> Null"
  by (simp add: run_defs)




text \<open>
  C10, as amended. selectorToJS calls \<^verbatim>\<open>toJS\<close> on every truthy result without a
  capability check whenever its combiner runs: for a state whose selected value is truthy
  and has no callable \<^verbatim>\<open>toJS\<close>, its selector throws (a TypeError) and does not pass
  the value through, on the first call and after a call that returned for a value which
  the deep-equality predicate does not equate with this one. It does so after any call
  history when the value and the values selected before are their own \<^verbatim>\<open>valueOf()\<close>
  and the value has no callable \<^verbatim>\<open>equals\<close>.
\<close>

theorem selectorToJS_throws_without_toJS:
  assumes "selector s = Inr v" and "truthy v" and "\<not> method_callable v ''toJS''"
  shows "outcome (selectorToJS (pure_selector selector)) s
           (after_calls (selectorToJS (pure_selector selector)) [] (([()], memo0), w))
         = Inl TypeError
       \<and> (selector s' = Inr a \<and> \<not> immutable_is a v \<and>
          outcome (selectorToJS (pure_selector selector)) s'
            (after_calls (selectorToJS (pure_selector selector)) history (([()], memo0), w))
          = Inr r \<longrightarrow>
            outcome (selectorToJS (pure_selector selector)) s
              (after_calls (selectorToJS (pure_selector selector)) (history @ [s'])
                 (([()], memo0), w))
            = Inl TypeError)
       \<and> (plain_history selector history \<and> value_of v = v \<and> \<not> method_callable v ''equals'' \<longrightarrow>
            outcome (selectorToJS (pure_selector selector)) s
              (after_calls (selectorToJS (pure_selector selector)) history (([()], memo0), w))
            = Inl TypeError)"
proof -
  let ?c = "\<lambda>args w. let raw = arg args 0 in if truthy raw then call_toJS raw w else (Inr Null, w)"
  have throws: "fst (?c [v] w0) = Inl TypeError" for w0
    using assms(2) call_toJS_not_callable[OF assms(3)] by (simp add: arg_def)
  show ?thesis
    unfolding selectorToJS_def
  proof (intro conjI impI)
    show "outcome (createImmutableComparingSelector [pure_selector selector] ?c) s
           (after_calls (createImmutableComparingSelector [pure_selector selector] ?c) []
              (([()], memo0), w)) = Inl TypeError"
      using comparing_first[where f=selector and s=s and v=v and comb="?c" and w=w] assms(1)
        throws[of w]
      by simp
  next
    assume prev: "selector s' = Inr a \<and> \<not> immutable_is a v \<and>
          outcome (createImmutableComparingSelector [pure_selector selector] ?c) s'
            (after_calls (createImmutableComparingSelector [pure_selector selector] ?c) history
               (([()], memo0), w)) = Inr r"
    have "\<exists>w0. outcome (createImmutableComparingSelector [pure_selector selector] ?c) s
           (after_calls (createImmutableComparingSelector [pure_selector selector] ?c)
              (history @ [s']) (([()], memo0), w)) = fst (?c [v] w0)"
      using prev assms(1)
      by (intro comparing_after_returning[where f=selector and a=a and r=r]) auto
    then show "outcome (createImmutableComparingSelector [pure_selector selector] ?c) s
           (after_calls (createImmutableComparingSelector [pure_selector selector] ?c)
              (history @ [s']) (([()], memo0), w)) = Inl TypeError"
      using throws by auto
  next
    assume plain: "plain_history selector history \<and> value_of v = v \<and>
        \<not> method_callable v ''equals''"
    show "outcome (createImmutableComparingSelector [pure_selector selector] ?c) s
            (after_calls (createImmutableComparingSelector [pure_selector selector] ?c)
               history (([()], memo0), w)) = Inl TypeError"
      using assms(1) plain throws
      by (intro comparing_plain_outcome[where f=selector and v=v]) auto
  qed
qed

theorem selectorToJS_throws_without_toJS_witness:
  "destructure ''contents'' (Plain 1 [(''contents'', Array 2 [Num 1, Num 2, Num 3])])
     = Inr (Array 2 [Num 1, Num 2, Num 3])
   \<and> truthy (Array 2 [Num 1, Num 2, Num 3])
   \<and> \<not> method_callable (Array 2 [Num 1, Num 2, Num 3]) ''toJS''
   \<and> destructure ''contents'' (Plain 3 [(''contents'', IList 4 [Num 1])]) = Inr (IList 4 [Num 1])
   \<and> \<not> immutable_is (IList 4 [Num 1]) (Array 2 [Num 1, Num 2, Num 3])
   \<and> outcome (selectorToJS (pure_selector (destructure ''contents'')))
       (Plain 3 [(''contents'', IList 4 [Num 1])])
       (after_calls (selectorToJS (pure_selector (destructure ''contents''))) []
          (([()], memo0), 10))
     = Inr (Array 10 [Num 1])
   \<and> plain_history (destructure ''contents'') [Plain 3 [(''contents'', IList 4 [Num 1])]]
   \<and> value_of (Array 2 [Num 1, Num 2, Num 3]) = Array 2 [Num 1, Num 2, Num 3]
   \<and> \<not> method_callable (Array 2 [Num 1, Num 2, Num 3]) ''equals''
   \<and> outcome (selectorToJS (pure_selector (destructure ''contents'')))
       (Plain 1 [(''contents'', Array 2 [Num 1, Num 2, Num 3])])
       (after_calls (selectorToJS (pure_selector (destructure ''contents''))) []
          (([()], memo0), 10))
     = Inl TypeError
   \<and> outcome (selectorToJS (pure_selector (destructure ''contents'')))
       (Plain 1 [(''contents'', Array 2 [Num 1, Num 2, Num 3])])
       (after_calls (selectorToJS (pure_selector (destructure ''contents'')))
          ([] @ [Plain 3 [(''contents'', IList 4 [Num 1])]]) (([()], memo0), 10))
     = Inl TypeError
   \<and> outcome (selectorToJS (pure_selector (destructure ''contents'')))
       (Plain 1 [(''contents'', Array 2 [Num 1, Num 2, Num 3])])
       (after_calls (selectorToJS (pure_selector (destructure ''contents'')))
          [Plain 3 [(''contents'', IList 4 [Num 1])]] (([()], memo0), 10))
     = Inl TypeError"
proof -
  have h: "destructure ''contents'' (Plain 1 [(''contents'', Array 2 [Num 1, Num 2, Num 3])])
     = Inr (Array 2 [Num 1, Num 2, Num 3])"
    "truthy (Array 2 [Num 1, Num 2, Num 3])"
    "\<not> method_callable (Array 2 [Num 1, Num 2, Num 3]) ''toJS''"
    by (simp_all add: destructure_def object_methods_def)
  have side: "destructure ''contents'' (Plain 3 [(''contents'', IList 4 [Num 1])]) = Inr (IList 4 [Num 1])"
    "\<not> immutable_is (IList 4 [Num 1]) (Array 2 [Num 1, Num 2, Num 3])"
    "plain_history (destructure ''contents'') [Plain 3 [(''contents'', IList 4 [Num 1])]]"
    "value_of (Array 2 [Num 1, Num 2, Num 3]) = Array 2 [Num 1, Num 2, Num 3]"
    "\<not> method_callable (Array 2 [Num 1, Num 2, Num 3]) ''equals''"
    by (simp_all add: destructure_def plain_history_def immutable_is.simps object_methods_def
        collection_methods_def)
  have prev: "outcome (selectorToJS (pure_selector (destructure ''contents'')))
       (Plain 3 [(''contents'', IList 4 [Num 1])])
       (after_calls (selectorToJS (pure_selector (destructure ''contents''))) []
          (([()], memo0), 10))
     = Inr (Array 10 [Num 1])"
    by (simp add: run_defs)
  from selectorToJS_throws_without_toJS[where selector="destructure ''contents''"
        and s="Plain 1 [(''contents'', Array 2 [Num 1, Num 2, Num 3])]"
        and v="Array 2 [Num 1, Num 2, Num 3]" and 
        s'="Plain 3 [(''contents'', IList 4 [Num 1])]" and a="IList 4 [Num 1]"
        and history="[]" and w=10 and r="Array 10 [Num 1]"]
    selectorToJS_throws_without_toJS[where selector="destructure ''contents''"
        and s="Plain 1 [(''contents'', Array 2 [Num 1, Num 2, Num 3])]"
        and v="Array 2 [Num 1, Num 2, Num 3]" and 
        history="[Plain 3 [(''contents'', IList 4 [Num 1])]]" and w=10]
    h side prev
  show ?thesis by simp
qed

text \<open>
  C10 as stated fails for a value that the deep-equality predicate equates with the
  value of the call before: the first call converts an object with a \<^verbatim>\<open>toJS\<close>
  method whose \<^verbatim>\<open>valueOf()\<close> is 5; the second call selects an object without
  \<^verbatim>\<open>toJS\<close> whose \<^verbatim>\<open>valueOf()\<close> is 5 as well, and it returns the first call's
  conversion and does not throw.
\<close>

theorem selectorToJS_valueOf_counterexample:
  "destructure ''contents'' (Plain 4 [(''contents'', Plain 5 [(''valueOf'', Func 3 (Num 5))])])
     = Inr (Plain 5 [(''valueOf'', Func 3 (Num 5))])
   \<and> truthy (Plain 5 [(''valueOf'', Func 3 (Num 5))])
   \<and> \<not> method_callable (Plain 5 [(''valueOf'', Func 3 (Num 5))]) ''toJS''
   \<and> outcome (selectorToJS (pure_selector (destructure ''contents'')))
       (Plain 4 [(''contents'', Plain 5 [(''valueOf'', Func 3 (Num 5))])])
       (after_calls (selectorToJS (pure_selector (destructure ''contents'')))
          [Plain 1 [(''contents'',
              Plain 2 [(''toJS'', Func 6 (Array 7 [])), (''valueOf'', Func 3 (Num 5))])]]
          (([()], memo0), 10))
     = Inr (Array 7 [])
   \<and> Inr (Array 7 []) \<noteq> (Inl TypeError :: exn + val)"
  by (simp add: run_defs)

section \<open>The props selector\<close>





























end
